theory Spec2Isabelle
  imports
    Complex_Main
    "HOL-Library.AList"
    "HOL-Library.Char_ord"
    "HOL-Library.List_Lexorder"
    "HOL-Library.Multiset"
begin

section \<open>Data model\<close>

text \<open>
  The program (\<^verbatim>\<open>src/times_reader/__main__.py\<close>) works on pandas data frames held in
  Python dictionaries. A data frame is modelled row-major: the ordered column labels and
  the rows, each row a list of cells. A cell is a Python string (\<open>Some s\<close>) or a missing
  value (\<open>None\<close>, pandas' NaN). All columns are of object dtype. Strings are byte
  strings; \<open>str.lower\<close> is modelled on ASCII letters.

  A Python \<open>dict\<close> keeps insertion order and is modelled as an association list:
  \<open>map_of\<close> is lookup, \<open>AList.update\<close> is \<open>d[k] = v\<close> (in place for a key already
  there, appended otherwise).
\<close>

datatype error =
    KeyError "string list"      \<comment> \<open>pandas: the labels that are not columns of the frame\<close>
  | ParameterKeyError string   \<comment> \<open>\<open>KeyError("Unable to find VALUE column in parameter \<dots>")\<close>\<close>
  | IndexError
  | ZeroDivisionError

type_synonym cell = "string option"

record frame =
  columns :: "string list"
  rows :: "cell list list"

type_synonym store = "(string \<times> frame) list"

text \<open>
  Modelled from the spec: the module \<^verbatim>\<open>datatypes\<close> (classes \<open>TimesXlMap\<close> and \<open>Config\<close>)
  is not among the sources; the fields are those the spec's Mapping Entry lists and
  \<^verbatim>\<open>__main__.py\<close> reads. \<open>col_map\<close> and \<open>filter_rows\<close> are dictionaries.
\<close>

record TimesXlMap =
  times_name :: string
  times_cols :: "string list"
  xl_name :: string
  xl_cols :: "string list"
  col_map :: "(string \<times> string) list"
  filter_rows :: "(string \<times> string) list"

record Config =
  times_xl_maps :: "TimesXlMap list"
  dd_table_order :: "string list"

definition wf_frame :: "frame \<Rightarrow> bool" where
  "wf_frame df \<longleftrightarrow>
     distinct (columns df) \<and> (\<forall>r \<in> set (rows df). length r = length (columns df))"

section \<open>The pandas operations the program uses\<close>

definition lower_char :: "char \<Rightarrow> char" where
  "lower_char c =
     (let n = (of_char c :: nat) in if 65 \<le> n \<and> n \<le> 90 then char_of (n + 32) else c)"

definition str_lower :: "string \<Rightarrow> string" where
  "str_lower s = map lower_char s"

text \<open>Position of the first column labelled \<open>c\<close>.\<close>

fun col_pos :: "string \<Rightarrow> string list \<Rightarrow> nat" where
  "col_pos c [] = 0"
| "col_pos c (x # xs) = (if x = c then 0 else Suc (col_pos c xs))"

text \<open>\<^verbatim>\<open>df[c]\<close>: the column, or \<open>KeyError\<close>.\<close>

definition getitem :: "frame \<Rightarrow> string \<Rightarrow> error + cell list" where
  "getitem df c =
     (if c \<in> set (columns df)
      then Inr (map (\<lambda>r. r ! col_pos c (columns df)) (rows df))
      else Inl (KeyError [c]))"

text \<open>\<^verbatim>\<open>df[c] = vals\<close>: overwrite the column in place, or append a new one.\<close>

definition setitem :: "frame \<Rightarrow> string \<Rightarrow> cell list \<Rightarrow> frame" where
  "setitem df c vals =
     (if c \<in> set (columns df)
      then df\<lparr>rows := map (\<lambda>(r, v). r[col_pos c (columns df) := v]) (zip (rows df) vals)\<rparr>
      else df\<lparr>columns := columns df @ [c],
              rows := map (\<lambda>(r, v). r @ [v]) (zip (rows df) vals)\<rparr>)"

text \<open>Boolean indexing: the rows at which the mask \<open>i\<close> is true.\<close>

definition mask_rows :: "'a list \<Rightarrow> bool list \<Rightarrow> 'a list" where
  "mask_rows rs i = map fst (filter snd (zip rs i))"

text \<open>\<^verbatim>\<open>df.loc[i, :]\<close> with a boolean mask \<open>i\<close>.\<close>

definition loc_rows :: "frame \<Rightarrow> bool list \<Rightarrow> frame" where
  "loc_rows df i = df\<lparr>rows := mask_rows (rows df) i\<rparr>"

text \<open>\<^verbatim>\<open>df[c].str.lower().isin(filter)\<close>: a missing cell is in no filter.\<close>

definition lower_isin :: "cell list \<Rightarrow> string set \<Rightarrow> bool list" where
  "lower_isin vals flt =
     map (\<lambda>x. case x of None \<Rightarrow> False | Some s \<Rightarrow> str_lower s \<in> flt) vals"

text \<open>\<^verbatim>\<open>df.drop(columns=cs)\<close>, for labels \<open>cs\<close> that are columns of \<open>df\<close>.\<close>

definition drop_columns :: "frame \<Rightarrow> string list \<Rightarrow> frame" where
  "drop_columns df cs =
     \<lparr>columns = filter (\<lambda>c. c \<notin> set cs) (columns df),
      rows = map (\<lambda>r. map snd (filter (\<lambda>(c, v). c \<notin> set cs) (zip (columns df) r))) (rows df)\<rparr>"

text \<open>\<^verbatim>\<open>df.drop_duplicates()\<close> keeps the first of equal rows, in order.\<close>

definition drop_duplicates :: "frame \<Rightarrow> frame" where
  "drop_duplicates df = df\<lparr>rows := rev (remdups (rev (rows df)))\<rparr>"

text \<open>\<^verbatim>\<open>df.loc[i, cols]\<close>: the rows of the mask, the columns \<open>cols\<close> in that order.\<close>

definition loc_rows_cols :: "frame \<Rightarrow> bool list \<Rightarrow> string list \<Rightarrow> error + frame" where
  "loc_rows_cols df i cols =
     (if set cols \<subseteq> set (columns df)
      then Inr \<lparr>columns = cols,
                rows = map (\<lambda>r. map (\<lambda>c. r ! col_pos c (columns df)) cols)
                         (mask_rows (rows df) i)\<rparr>
      else Inl (KeyError (filter (\<lambda>c. c \<notin> set (columns df)) cols)))"

section \<open>produce_times_tables\<close>

datatype warning =
    NoInputTable string string                  \<comment> \<open>times_name, xl_name\<close>
  | NoFilterColumn string string string         \<comment> \<open>times_name, xl_name, filter_col\<close>
  | NoRequiredColumns string string "string set" \<comment> \<open>times_name, xl_name, missing\<close>
  | UnusedTables "string list"

text \<open>
  The loop over \<^verbatim>\<open>mapping.filter_rows.items()\<close>. A filter column that is absent is
  warned about; the statement after the warning reads the column all the same.
\<close>

fun filter_loop ::
  "TimesXlMap \<Rightarrow> (string \<times> string) list \<Rightarrow> frame \<Rightarrow> warning list \<times> (error + frame)" where
  "filter_loop m [] df = ([], Inr df)"
| "filter_loop m ((filter_col, filter_val) # fs) df =
     (let w = (if filter_col \<notin> set (columns df)
               then [NoFilterColumn (times_name m) (xl_name m) filter_col] else [])
      in case getitem df filter_col of
           Inl e \<Rightarrow> (w, Inl e)
         | Inr vals \<Rightarrow>
             (case filter_loop m fs (loc_rows df (lower_isin vals {str_lower filter_val})) of
                (w', r) \<Rightarrow> (w @ w', r)))"

text \<open>The loop over \<^verbatim>\<open>mapping.col_map.items()\<close>: \<^verbatim>\<open>df[times_col] = df[xl_col]\<close>.\<close>

fun col_map_loop :: "(string \<times> string) list \<Rightarrow> frame \<Rightarrow> error + frame" where
  "col_map_loop [] df = Inr df"
| "col_map_loop ((times_col, xl_col) # cm) df =
     (case getitem df xl_col of
        Inl e \<Rightarrow> Inl e
      | Inr vals \<Rightarrow> col_map_loop cm (setitem df times_col vals))"

text \<open>The row validity mask of lines 257 to 261.\<close>

definition valid_mask :: "TimesXlMap \<Rightarrow> frame \<Rightarrow> error + bool list" where
  "valid_mask m df =
     (if times_cols m = [] then Inl IndexError
      else case getitem df (last (times_cols m)) of
             Inl e \<Rightarrow> Inl e
           | Inr vals \<Rightarrow>
               Inr (map (\<lambda>(v, r). v \<noteq> None \<and> (\<forall>x \<in> set r. x \<noteq> Some ''None'')
                                   \<and> (\<forall>x \<in> set r. x \<noteq> Some ''''))
                        (zip vals (rows df))))"

text \<open>Lines 239 and 240: \<^verbatim>\<open>df["techgroup"] = df["techname"]\<close> when \<open>techgroup\<close> is asked for.\<close>

definition set_techgroup :: "TimesXlMap \<Rightarrow> frame \<Rightarrow> error + frame" where
  "set_techgroup m df =
     (if ''techgroup'' \<in> set (xl_cols m)
      then (case getitem df ''techname'' of
              Inl e \<Rightarrow> Inl e
            | Inr vals \<Rightarrow> Inr (setitem df ''techgroup'' vals))
      else Inr df)"

text \<open>
  Lines 226 to 262 for an entry whose source table \<open>src\<close> exists: the warnings printed,
  and either the exception raised, or \<open>None\<close> when a required column is missing (the
  entry is given up with a warning), or the table \<open>df\<close> as it stands after
  \<^verbatim>\<open>df = df.loc[i, mapping.times_cols]\<close>: the rows left by the filters, the removal of
  duplicates and the row validity rule.
\<close>

definition mapped_table ::
  "TimesXlMap \<Rightarrow> frame \<Rightarrow> warning list \<times> (error + frame option)" where
  "mapped_table m src =
     (case filter_loop m (filter_rows m) src of
        (w, Inl e) \<Rightarrow> (w, Inl e)
      | (w, Inr df1) \<Rightarrow>
          (case set_techgroup m df1 of
             Inl e \<Rightarrow> (w, Inl e)
           | Inr df2 \<Rightarrow>
               if \<not> (\<forall>c \<in> set (xl_cols m). c \<in> set (columns df2))
               then (w @ [NoRequiredColumns (times_name m) (xl_name m)
                            (set (xl_cols m) - set (columns df2))], Inr None)
               else
                 (case col_map_loop (col_map m) df2 of
                    Inl e \<Rightarrow> (w, Inl e)
                  | Inr df3 \<Rightarrow>
                      (let cols_to_drop = filter (\<lambda>x. x \<notin> set (times_cols m)) (columns df3);
                           df4 = drop_duplicates (drop_columns df3 cols_to_drop)
                       in case valid_mask m df4 of
                            Inl e \<Rightarrow> (w, Inl e)
                          | Inr i \<Rightarrow>
                              (case loc_rows_cols df4 i (times_cols m) of
                                 Inl e \<Rightarrow> (w, Inl e)
                               | Inr df5 \<Rightarrow> (w, Inr (Some df5)))))))"

text \<open>
  The body of the loop over the mapping entries for an entry whose source table \<open>src\<close>
  exists, lines 226 to 266: after \<open>mapped_table\<close>, a table without rows is dropped
  (\<^verbatim>\<open>if len(df) == 0: continue\<close>). The result is the warnings printed, and either the
  exception raised, or \<open>None\<close> when nothing is stored, or the table stored under
  \<open>times_name\<close>.
\<close>

definition produce_table ::
  "TimesXlMap \<Rightarrow> frame \<Rightarrow> warning list \<times> (error + frame option)" where
  "produce_table m src =
     (case mapped_table m src of
        (w, Inl e) \<Rightarrow> (w, Inl e)
      | (w, Inr None) \<Rightarrow> (w, Inr None)
      | (w, Inr (Some df)) \<Rightarrow>
          if length (rows df) = 0 then (w, Inr None) else (w, Inr (Some df)))"

text \<open>
  The loop over \<^verbatim>\<open>config.times_xl_maps\<close>; the state is \<open>result\<close> and \<open>used_tables\<close>.
\<close>

fun mapping_loop ::
  "store \<Rightarrow> TimesXlMap list \<Rightarrow> store \<times> string list
     \<Rightarrow> warning list \<times> (error + store \<times> string list)" where
  "mapping_loop input [] st = ([], Inr st)"
| "mapping_loop input (m # ms) (result, used_tables) =
     (case map_of input (xl_name m) of
        None \<Rightarrow>
          (case mapping_loop input ms (result, used_tables) of
             (w', r) \<Rightarrow> (NoInputTable (times_name m) (xl_name m) # w', r))
      | Some src \<Rightarrow>
          (case produce_table m src of
             (w, Inl e) \<Rightarrow> (w, Inl e)
           | (w, Inr None) \<Rightarrow>
               (case mapping_loop input ms (result, xl_name m # used_tables) of
                  (w', r) \<Rightarrow> (w @ w', r))
           | (w, Inr (Some df)) \<Rightarrow>
               (case mapping_loop input ms
                       (AList.update (times_name m) df result, xl_name m # used_tables) of
                  (w', r) \<Rightarrow> (w @ w', r))))"

definition produce_times_tables :: "Config \<Rightarrow> store \<Rightarrow> warning list \<times> (error + store)" where
  "produce_times_tables config input =
     (case mapping_loop input (times_xl_maps config) ([], []) of
        (w, Inl e) \<Rightarrow> (w, Inl e)
      | (w, Inr (result, used_tables)) \<Rightarrow>
          (let unused_tables = filter (\<lambda>k. k \<notin> set used_tables) (map fst input)
           in (w @ (if length (remdups unused_tables) > 0
                    then [UnusedTables (sort (remdups unused_tables))] else []),
               Inr result)))"

section \<open>compare\<close>

text \<open>
  What \<^verbatim>\<open>compare\<close> prints and writes. The rows of a table are compared as Python
  sets of tuples; the side files \<^verbatim>\<open><table>_additional.csv\<close> and
  \<^verbatim>\<open><table>_missing.csv\<close> are written from such a set, so a file is modelled by the
  set of rows it holds. The final ratio is a division of two integers, modelled as a
  rational number; it raises \<open>ZeroDivisionError\<close> when the divisor is zero.
\<close>

datatype message =
    GroundTruthContains nat nat                      \<comment> \<open>tables, rows\<close>
  | MissingTables nat "(string \<times> nat) list"          \<comment> \<open>count, (name, rows) sorted by name\<close>
  | AdditionalTables nat "(string \<times> nat) list"
  | HeaderIncorrect string "string list" "string list" \<comment> \<open>table, data_cols, transformed_gt_cols\<close>
  | RowsDiffer string nat nat nat nat                \<comment> \<open>table, rows, GT rows, additional, missing\<close>

record tally =
  total_gt_rows :: nat
  total_correct_rows :: nat
  total_additional_rows :: nat
  printed :: "message list"
  written :: "(string \<times> cell list set) list"

record summary =
  ratio :: rat
  correct_rows :: nat
  gt_rows :: nat
  additional_rows :: nat

definition nrows :: "frame \<Rightarrow> nat" where
  "nrows df = length (rows df)"

text \<open>\<^verbatim>\<open>sum(df.shape[0] for _, df in store.items())\<close>\<close>

definition total_rows :: "store \<Rightarrow> nat" where
  "total_rows s = sum_list (map (\<lambda>(_, df). nrows df) s)"

text \<open>\<^verbatim>\<open>col.split(".")[0]\<close>\<close>

definition split_dot_first :: "string \<Rightarrow> string" where
  "split_dot_first col = takeWhile (\<lambda>c. c \<noteq> CHR ''.'') col"

text \<open>The body of the loop over the ground-truth tables.\<close>

definition compare_table :: "store \<Rightarrow> string \<times> frame \<Rightarrow> tally \<Rightarrow> tally" where
  "compare_table data = (\<lambda>(table_name, gt_table) t.
     (let t = t\<lparr>total_gt_rows := total_gt_rows t + nrows gt_table\<rparr>
      in case map_of data table_name of
           None \<Rightarrow> t
         | Some data_table \<Rightarrow>
             (let transformed_gt_cols = map split_dot_first (columns gt_table);
                  data_cols = columns data_table
              in if transformed_gt_cols \<noteq> data_cols
                 then t\<lparr>printed := printed t
                          @ [HeaderIncorrect table_name data_cols transformed_gt_cols]\<rparr>
                 else
                   (let gt_rows = set (rows gt_table);
                        data_rows = set (rows data_table);
                        additional = data_rows - gt_rows;
                        missing = gt_rows - data_rows
                    in t\<lparr>total_correct_rows :=
                            total_correct_rows t + card (gt_rows \<inter> data_rows),
                          total_additional_rows := total_additional_rows t + card additional,
                          printed := printed t
                            @ (if card additional \<noteq> 0 \<or> card missing \<noteq> 0
                               then [RowsDiffer table_name (nrows data_table) (nrows gt_table)
                                       (card additional) (card missing)]
                               else []),
                          written := written t
                            @ (if card additional \<noteq> 0
                               then [(table_name @ ''_additional.csv'', additional)] else [])
                            @ (if card missing \<noteq> 0
                               then [(table_name @ ''_missing.csv'', missing)] else [])\<rparr>))))"

text \<open>
  \<^verbatim>\<open>sorted(ground_truth.items(), reverse=True, key=lambda t: len(t[1]))\<close>: Python's sort
  is stable, also with \<open>reverse=True\<close>.
\<close>

definition sorted_by_len_desc :: "store \<Rightarrow> store" where
  "sorted_by_len_desc gt = rev (sort_key (\<lambda>t. nrows (snd t)) (rev gt))"

definition compare ::
  "store \<Rightarrow> store \<Rightarrow> message list \<times> (string \<times> cell list set) list \<times> (error + summary)" where
  "compare data ground_truth =
     (let info = GroundTruthContains (length ground_truth) (total_rows ground_truth);
          missing = sort (remdups (filter (\<lambda>k. k \<notin> fst ` set data) (map fst ground_truth)));
          missing_str = map (\<lambda>x. (x, nrows (the (map_of ground_truth x)))) missing;
          additional_tables =
            sort (remdups (filter (\<lambda>k. k \<notin> fst ` set ground_truth) (map fst data)));
          additional_str = map (\<lambda>x. (x, nrows (the (map_of data x)))) additional_tables;
          t0 = \<lparr>total_gt_rows = 0, total_correct_rows = 0,
                total_additional_rows = sum_list (map snd additional_str),
                printed = [info]
                  @ (if length missing > 0 then [MissingTables (length missing) missing_str]
                     else [])
                  @ (if length additional_tables > 0
                     then [AdditionalTables (length additional_tables) additional_str] else []),
                written = []\<rparr>;
          t = fold (compare_table data) (sorted_by_len_desc ground_truth) t0
      in (printed t, written t,
          if total_gt_rows t = 0 then Inl ZeroDivisionError
          else Inr \<lparr>ratio = of_nat (total_correct_rows t) / of_nat (total_gt_rows t),
                    correct_rows = total_correct_rows t,
                    gt_rows = total_gt_rows t,
                    additional_rows = total_additional_rows t\<rparr>))"

section \<open>write_dd_files\<close>

abbreviation apostrophe :: char where "apostrophe \<equiv> CHR 0x27"
abbreviation newline :: char where "newline \<equiv> CHR 0x0A"

text \<open>\<^verbatim>\<open>str(x)\<close> of a cell; a missing cell is NaN.\<close>

fun str_cell :: "cell \<Rightarrow> string" where
  "str_cell (Some s) = s"
| "str_cell None = ''nan''"

text \<open>\<^verbatim>\<open>sep.join(xs)\<close>\<close>

fun join :: "string \<Rightarrow> string list \<Rightarrow> string" where
  "join sep [] = []"
| "join sep [x] = x"
| "join sep (x # y # ys) = x @ sep @ join sep (y # ys)"

text \<open>
  The fields of a row, \<^verbatim>\<open>row._asdict().items()\<close>, but for the field \<open>skip\<close>. The
  column labels are taken to be identifiers, which \<^verbatim>\<open>itertuples\<close> keeps as field names.
\<close>

definition fields_except :: "string \<Rightarrow> frame \<Rightarrow> cell list \<Rightarrow> string list" where
  "fields_except skip df row =
     map (\<lambda>(k, x). str_cell x) (filter (\<lambda>(k, x). k \<noteq> skip) (zip (columns df) row))"

definition convert_set :: "frame \<Rightarrow> string list" where
  "convert_set df =
     (let has_description = ''TEXT'' \<in> set (columns df)
      in map (\<lambda>row.
           (let row_str = join [apostrophe, CHR ''.'', apostrophe] (fields_except ''TEXT'' df row);
                desc = (if has_description
                        then [CHR '' '', apostrophe]
                             @ str_cell (row ! col_pos ''TEXT'' (columns df)) @ [apostrophe]
                        else [])
            in [apostrophe] @ row_str @ [apostrophe] @ desc @ [newline]))
         (rows df))"

definition convert_parameter :: "string \<Rightarrow> frame \<Rightarrow> error + string list" where
  "convert_parameter tablename df =
     (if ''VALUE'' \<notin> set (columns df) then Inl (ParameterKeyError tablename)
      else Inr (map (\<lambda>row.
             (let val = str_cell (row ! col_pos ''VALUE'' (columns df));
                  row_str = join [apostrophe, CHR ''.'', apostrophe]
                              (fields_except ''VALUE'' df row)
              in if row_str \<noteq> []
                 then [apostrophe] @ row_str @ [apostrophe] @ '' '' @ val @ [newline]
                 else val @ [newline]))
           (rows df)))"

text \<open>\<^verbatim>\<open>sets = {m.times_name for m in config.times_xl_maps if "VALUE" not in m.col_map}\<close>\<close>

definition sets :: "Config \<Rightarrow> string set" where
  "sets config =
     set (map times_name
            (filter (\<lambda>m. ''VALUE'' \<notin> fst ` set (col_map m)) (times_xl_maps config)))"

text \<open>
  The text written to one file: the loop over the names of \<open>tablenames\<close> that are tables
  of the store.
\<close>

fun write_tables :: "string set \<Rightarrow> store \<Rightarrow> string list \<Rightarrow> error + string" where
  "write_tables ss tables [] = Inr []"
| "write_tables ss tables (tablename # ts) =
     (case map_of tables tablename of
        None \<Rightarrow> write_tables ss tables ts
      | Some df \<Rightarrow>
          (case (if tablename \<in> ss then Inr (convert_set df)
                 else convert_parameter tablename df) of
             Inl e \<Rightarrow> Inl e
           | Inr lines \<Rightarrow>
               (case write_tables ss tables ts of
                  Inl e \<Rightarrow> Inl e
                | Inr rest \<Rightarrow>
                    Inr ((if tablename \<in> ss
                          then ''SET '' @ tablename @ [newline] @ ''/'' @ [newline]
                          else ''PARAMETER'' @ [newline] @ tablename @ '' ''
                               @ [apostrophe, CHR '' '', apostrophe] @ ''/'' @ [newline])
                         @ concat (sort lines)
                         @ [newline] @ ''/;'' @ [newline] @ rest))))"

definition tables_in_file :: "Config \<Rightarrow> (string \<times> string list) list" where
  "tables_in_file config =
     [(''ts.dd'', [''ALL_TS'']),
      (''output.dd'', filter (\<lambda>t. t \<noteq> ''ALL_TS'') (dd_table_order config))]"

text \<open>The files written, by name, or the exception that ends the run.\<close>

fun write_files ::
  "string set \<Rightarrow> store \<Rightarrow> (string \<times> string list) list \<Rightarrow> error + (string \<times> string) list" where
  "write_files ss tables [] = Inr []"
| "write_files ss tables ((fname, tablenames) # fs) =
     (case write_tables ss tables tablenames of
        Inl e \<Rightarrow> Inl e
      | Inr text \<Rightarrow>
          (case write_files ss tables fs of
             Inl e \<Rightarrow> Inl e
           | Inr rest \<Rightarrow> Inr ((fname, text) # rest)))"

definition write_dd_files :: "store \<Rightarrow> Config \<Rightarrow> error + (string \<times> string) list" where
  "write_dd_files tables config = write_files (sets config) tables (tables_in_file config)"

text \<open>
  The table names \<^verbatim>\<open>write_dd_files\<close> goes through, in order, and the tables among them
  on which \<^verbatim>\<open>convert_parameter\<close> raises: those of the store that are not sets and have
  no column \<open>VALUE\<close>.
\<close>

definition routed :: "Config \<Rightarrow> string list" where
  "routed config = concat (map snd (tables_in_file config))"

definition parameter_without_value :: "string set \<Rightarrow> store \<Rightarrow> string \<Rightarrow> bool" where
  "parameter_without_value ss tables t =
     (case map_of tables t of
        None \<Rightarrow> False
      | Some df \<Rightarrow> t \<notin> ss \<and> ''VALUE'' \<notin> set (columns df))"

section \<open>Predicates of the properties\<close>

text \<open>A column label without a dot: \<^verbatim>\<open>col.split(".")[0]\<close> leaves it as it is.\<close>

definition dotless :: "string \<Rightarrow> bool" where
  "dotless c \<longleftrightarrow> CHR ''.'' \<notin> set c"

text \<open>Two named tables that differ at most in the order of their rows.\<close>

definition same_rows_permuted :: "string \<times> frame \<Rightarrow> string \<times> frame \<Rightarrow> bool" where
  "same_rows_permuted = (\<lambda>(n, t) (n', t').
     n = n' \<and> columns t = columns t' \<and> mset (rows t) = mset (rows t'))"

section \<open>Example inputs\<close>

text \<open>The example of the specification: a table \<open>techs\<close> filtered on its region.\<close>

definition ex_techs :: frame where
  "ex_techs =
     \<lparr>columns = [''region'', ''techname'', ''value''],
      rows = [[Some ''EU'', Some ''T1'', Some ''5''],
              [Some ''US'', Some ''T2'', Some ''3''],
              [Some ''EU'', Some ''T3'', Some ''None'']]\<rparr>"

definition ex_map :: "string \<Rightarrow> TimesXlMap" where
  "ex_map n =
     \<lparr>times_name = n,
      times_cols = [''REGION'', ''TECH'', ''VALUE''],
      xl_name = ''techs'',
      xl_cols = [''region'', ''techname'', ''value''],
      col_map = [(''REGION'', ''region''), (''TECH'', ''techname''), (''VALUE'', ''value'')],
      filter_rows = [(''region'', ''EU'')]\<rparr>"

definition ex_config :: "string \<Rightarrow> Config" where
  "ex_config n = \<lparr>times_xl_maps = [ex_map n], dd_table_order = [n]\<rparr>"

definition ex_result :: frame where
  "ex_result =
     \<lparr>columns = [''REGION'', ''TECH'', ''VALUE''],
      rows = [[Some ''EU'', Some ''T1'', Some ''5'']]\<rparr>"

text \<open>A source table without the column \<open>region\<close> that \<open>ex_map\<close> filters on.\<close>

definition ex_no_region :: frame where
  "ex_no_region =
     \<lparr>columns = [''techname'', ''value''], rows = [[Some ''T1'', Some ''5'']]\<rparr>"

text \<open>A source table with a technology group of its own, and an entry asking for it.\<close>

definition ex_grouped :: frame where
  "ex_grouped =
     \<lparr>columns = [''techname'', ''techgroup''], rows = [[Some ''T1'', Some ''G1'']]\<rparr>"

definition ex_group_map :: TimesXlMap where
  "ex_group_map =
     \<lparr>times_name = ''PRC_GRP'',
      times_cols = [''PRC'', ''GRP''],
      xl_name = ''techs'',
      xl_cols = [''techname'', ''techgroup''],
      col_map = [(''PRC'', ''techname''), (''GRP'', ''techgroup'')],
      filter_rows = []\<rparr>"

text \<open>Tables for the serializer: a set with a description, two parameters.\<close>

definition ex_set :: frame where
  "ex_set = \<lparr>columns = [''REG'', ''PRC'', ''TEXT''],
             rows = [[Some ''A'', Some ''B'', Some ''desc'']]\<rparr>"

definition ex_param :: frame where
  "ex_param = \<lparr>columns = [''REG'', ''VALUE''], rows = [[Some ''X'', Some ''10'']]\<rparr>"

definition ex_scalar :: frame where
  "ex_scalar = \<lparr>columns = [''VALUE''], rows = [[Some ''10'']]\<rparr>"

text \<open>The rows of \<open>ex_techs\<close> in the opposite order.\<close>

definition ex_techs_reversed :: frame where
  "ex_techs_reversed = ex_techs\<lparr>rows := rev (rows ex_techs)\<rparr>"

text \<open>A source table without the column \<open>techname\<close>.\<close>

definition ex_no_techname :: frame where
  "ex_no_techname = \<lparr>columns = [''region'', ''value''], rows = [[Some ''EU'', Some ''5'']]\<rparr>"

text \<open>An entry whose output column has a dot in its label.\<close>

definition ex_dotted_map :: TimesXlMap where
  "ex_dotted_map =
     \<lparr>times_name = ''DOTTED'',
      times_cols = [''V.1''],
      xl_name = ''techs'',
      xl_cols = [''value''],
      col_map = [(''V.1'', ''value'')],
      filter_rows = []\<rparr>"

text \<open>
  The entry \<open>ex_map\<close> with a filter that no row of \<open>ex_techs\<close> passes, and two
  configurations that hold it after \<open>ex_map\<close>: under the same name, and under another.
\<close>

definition ex_empty_map :: "string \<Rightarrow> TimesXlMap" where
  "ex_empty_map n = (ex_map n)\<lparr>filter_rows := [(''region'', ''ASIA'')]\<rparr>"

definition ex_two_config :: "string \<Rightarrow> Config" where
  "ex_two_config n =
     \<lparr>times_xl_maps = [ex_map ''TECHS'', ex_empty_map n], dd_table_order = []\<rparr>"

text \<open>A configuration without mapping entries, which writes the tables \<open>order\<close>.\<close>

definition ex_dd_config :: "string list \<Rightarrow> Config" where
  "ex_dd_config order = \<lparr>times_xl_maps = [], dd_table_order = order\<rparr>"

section \<open>The loop of produce_times_tables\<close>

lemma loc_rows_cols_columns:
  "loc_rows_cols df i cols = Inr df' \<Longrightarrow> columns df' = cols"
  by (auto simp: loc_rows_cols_def split: if_splits)

lemma produce_table_Some:
  assumes "produce_table m src = (w, Inr (Some df))"
  shows "columns df = times_cols m \<and> rows df \<noteq> []"
  using assms unfolding produce_table_def mapped_table_def Let_def
  by (auto split: prod.splits sum.splits option.splits if_splits dest: loc_rows_cols_columns)

lemma in_set_update:
  "(n, df) \<in> set (AList.update k v al) \<Longrightarrow> (n, df) = (k, v) \<or> (n, df) \<in> set al"
  by (induction al) (auto split: if_splits)

lemma mapping_loop_store_invariant:
  assumes "mapping_loop input ms (result, used) = (w, Inr (result', used'))"
      and "I result"
      and "\<And>m src w df r. m \<in> set ms \<Longrightarrow> map_of input (xl_name m) = Some src \<Longrightarrow>
             produce_table m src = (w, Inr (Some df)) \<Longrightarrow> I r \<Longrightarrow>
             I (AList.update (times_name m) df r)"
  shows "I result'"
  using assms
proof (induction ms arbitrary: result used w)
  case Nil
  then show ?case by simp
next
  case (Cons m ms)
  have step: "\<And>m' src w df r. m' \<in> set ms \<Longrightarrow> map_of input (xl_name m') = Some src \<Longrightarrow>
             produce_table m' src = (w, Inr (Some df)) \<Longrightarrow> I r \<Longrightarrow>
             I (AList.update (times_name m') df r)"
    using Cons.prems(3) by simp
  show ?case
  proof (cases "map_of input (xl_name m)")
    case None
    with Cons.prems(1) obtain w' where
      "mapping_loop input ms (result, used) = (w', Inr (result', used'))"
      by (auto split: prod.splits)
    then show ?thesis using Cons.IH Cons.prems(2) step by blast
  next
    case (Some src)
    obtain w1 r1 where pt: "produce_table m src = (w1, r1)" by (cases "produce_table m src")
    show ?thesis
    proof (cases r1)
      case (Inl e)
      with Cons.prems(1) Some pt show ?thesis by simp
    next
      case (Inr o1)
      show ?thesis
      proof (cases o1)
        case None
        with Cons.prems(1) Some pt Inr obtain w' where
          "mapping_loop input ms (result, xl_name m # used) = (w', Inr (result', used'))"
          by (auto split: prod.splits)
        then show ?thesis using Cons.IH Cons.prems(2) step by blast
      next
        case (Some df)
        with Cons.prems(1) \<open>map_of input (xl_name m) = Some src\<close> pt Inr obtain w' where
          l: "mapping_loop input ms (AList.update (times_name m) df result, xl_name m # used)
                = (w', Inr (result', used'))"
          by (auto split: prod.splits)
        have "I (AList.update (times_name m) df result)"
          using Cons.prems(3) [of m src w1 df result] \<open>map_of input (xl_name m) = Some src\<close>
            pt Inr Some Cons.prems(2) by simp
        then show ?thesis using Cons.IH [OF l] step by blast
      qed
    qed
  qed
qed

lemma produce_times_tables_store_invariant:
  assumes "produce_times_tables config input = (w, Inr result)"
      and "I []"
      and "\<And>m src w df r. m \<in> set (times_xl_maps config) \<Longrightarrow>
             map_of input (xl_name m) = Some src \<Longrightarrow>
             produce_table m src = (w, Inr (Some df)) \<Longrightarrow> I r \<Longrightarrow>
             I (AList.update (times_name m) df r)"
  shows "I result"
proof -
  from assms(1) obtain w' used where
    "mapping_loop input (times_xl_maps config) ([], []) = (w', Inr (result, used))"
    by (auto simp: produce_times_tables_def Let_def split: prod.splits sum.splits)
  from mapping_loop_store_invariant [where I = I, OF this assms(2)] assms(3)
  show ?thesis by blast
qed

lemma produce_times_tables_invariant:
  assumes "produce_times_tables config input = (w, Inr result)"
      and "\<And>m src w df. m \<in> set (times_xl_maps config) \<Longrightarrow>
             map_of input (xl_name m) = Some src \<Longrightarrow>
             produce_table m src = (w, Inr (Some df)) \<Longrightarrow> Q (times_name m) df"
  shows "\<forall>(n, df) \<in> set result. Q n df"
proof (rule produce_times_tables_store_invariant
    [where I = "\<lambda>r. \<forall>(n, df) \<in> set r. Q n df", OF assms(1)])
  show "\<forall>(n, df) \<in> set []. Q n df" by simp
next
  fix m src w df r
  assume "m \<in> set (times_xl_maps config)" "map_of input (xl_name m) = Some src"
    "produce_table m src = (w, Inr (Some df))" "\<forall>(n, df) \<in> set r. Q n df"
  then show "\<forall>(n, d) \<in> set (AList.update (times_name m) df r). Q n d"
    using assms(2) by (auto dest: in_set_update)
qed

lemma produce_times_tables_distinct:
  assumes "produce_times_tables config input = (w, Inr result)"
  shows "distinct (map fst result)"
  by (rule produce_times_tables_store_invariant
      [where I = "\<lambda>r. distinct (map fst r)", OF assms])
     (simp_all add: distinct_update)

lemma stored_table_origin:
  assumes "produce_times_tables config input = (w, Inr result)"
  shows "\<forall>(n, df) \<in> set result.
           \<exists>m \<in> set (times_xl_maps config). \<exists>src w'.
             times_name m = n \<and> map_of input (xl_name m) = Some src \<and>
             produce_table m src = (w', Inr (Some df))"
  by (rule produce_times_tables_invariant [OF assms]) blast

lemma produce_table_of_empty:
  assumes "mapped_table m src = (w, Inr (Some df))" and "rows df = []"
  shows "produce_table m src = (w, Inr None)"
  using assms by (simp add: produce_table_def)

lemma ex_empty_mapped:
  "mapped_table (ex_empty_map n) ex_techs
     = ([], Inr (Some \<lparr>columns = [''REGION'', ''TECH'', ''VALUE''], rows = []\<rparr>))"
  by (simp add: ex_empty_map_def ex_map_def ex_techs_def
      mapped_table_def set_techgroup_def getitem_def setitem_def loc_rows_def mask_rows_def
      lower_isin_def str_lower_def lower_char_def drop_columns_def drop_duplicates_def
      valid_mask_def loc_rows_cols_def)

lemma ex_two_run:
  "produce_times_tables (ex_two_config n) [(''techs'', ex_techs)]
     = ([], Inr [(''TECHS'', ex_result)])"
  by (simp add: ex_two_config_def ex_empty_map_def ex_map_def ex_techs_def ex_result_def
      produce_times_tables_def
      produce_table_def mapped_table_def set_techgroup_def getitem_def setitem_def loc_rows_def
      mask_rows_def lower_isin_def str_lower_def lower_char_def drop_columns_def
      drop_duplicates_def valid_mask_def loc_rows_cols_def)

lemma ex_run:
  "produce_times_tables (ex_config n) [(''techs'', ex_techs)] = ([], Inr [(n, ex_result)])"
  by (simp add: ex_config_def ex_map_def ex_techs_def ex_result_def produce_times_tables_def
      produce_table_def mapped_table_def set_techgroup_def getitem_def setitem_def loc_rows_def mask_rows_def
      lower_isin_def str_lower_def lower_char_def drop_columns_def drop_duplicates_def
      valid_mask_def loc_rows_cols_def)

section \<open>Well-formed frames\<close>

text \<open>
  The operations keep the labels of a frame distinct and its rows as wide as its labels;
  after \<^verbatim>\<open>drop_duplicates\<close> and the selection of \<open>times_cols\<close> the rows are distinct.
\<close>

lemma set_mask_rows: "set (mask_rows xs i) \<subseteq> set xs"
  by (auto simp: mask_rows_def dest: set_zip_leftD)

lemma distinct_mask_rows: "distinct xs \<Longrightarrow> distinct (mask_rows xs i)"
proof (induction xs arbitrary: i)
  case Nil
  then show ?case by (simp add: mask_rows_def)
next
  case (Cons x xs)
  show ?case
  proof (cases i)
    case Nil
    then show ?thesis by (simp add: mask_rows_def)
  next
    case (Cons b bs)
    have "x \<notin> set (mask_rows xs bs)" using Cons.prems set_mask_rows [of xs bs] by auto
    moreover have "distinct (mask_rows xs bs)" using Cons.prems Cons.IH by simp
    ultimately show ?thesis using Cons by (simp add: mask_rows_def)
  qed
qed

lemma wf_loc_rows: "wf_frame df \<Longrightarrow> wf_frame (loc_rows df i)"
  using set_mask_rows [of "rows df" i] by (auto simp: wf_frame_def loc_rows_def)

lemma wf_filter_loop:
  "filter_loop m fs df = (w, Inr df') \<Longrightarrow> wf_frame df \<Longrightarrow> wf_frame df'"
proof (induction fs arbitrary: df w)
  case Nil
  then show ?case by simp
next
  case (Cons f fs)
  obtain c v where f: "f = (c, v)" by (cases f)
  from Cons.prems(1) f obtain vals w' where
    "filter_loop m fs (loc_rows df (lower_isin vals {str_lower v})) = (w', Inr df')"
    by (auto simp: Let_def split: sum.splits prod.splits)
  then show ?case using Cons.IH Cons.prems(2) wf_loc_rows by blast
qed

lemma wf_setitem: "wf_frame df \<Longrightarrow> wf_frame (setitem df c vals)"
  by (auto simp: wf_frame_def setitem_def dest: set_zip_leftD)

lemma wf_set_techgroup: "set_techgroup m df = Inr df' \<Longrightarrow> wf_frame df \<Longrightarrow> wf_frame df'"
  by (auto simp: set_techgroup_def wf_setitem split: if_splits sum.splits)

lemma wf_col_map_loop: "col_map_loop cm df = Inr df' \<Longrightarrow> wf_frame df \<Longrightarrow> wf_frame df'"
proof (induction cm arbitrary: df)
  case Nil
  then show ?case by simp
next
  case (Cons a cm)
  obtain tc xc where a: "a = (tc, xc)" by (cases a)
  from Cons.prems(1) a obtain vals where "col_map_loop cm (setitem df tc vals) = Inr df'"
    by (auto split: sum.splits)
  then show ?case using Cons.IH Cons.prems(2) wf_setitem by blast
qed

lemma length_filter_zip:
  "length r = length cs \<Longrightarrow>
     length (filter (\<lambda>(c, v). P c) (zip cs r)) = length (filter P cs)"
  by (induction cs r rule: list_induct2') auto

lemma wf_drop_columns: "wf_frame df \<Longrightarrow> wf_frame (drop_columns df cs)"
  by (auto simp: wf_frame_def drop_columns_def length_filter_zip)

lemma wf_drop_duplicates: "wf_frame df \<Longrightarrow> wf_frame (drop_duplicates df)"
  by (auto simp: wf_frame_def drop_duplicates_def)

lemma distinct_drop_duplicates: "distinct (rows (drop_duplicates df))"
  by (simp add: drop_duplicates_def)

lemma col_pos_nth: "distinct cs \<Longrightarrow> j < length cs \<Longrightarrow> col_pos (cs ! j) cs = j"
proof (induction cs arbitrary: j)
  case Nil
  then show ?case by simp
next
  case (Cons c cs)
  then show ?case by (cases j) auto
qed

lemma select_inj:
  assumes "distinct cs" and "set cs \<subseteq> set tcs"
      and "length r = length cs" and "length r' = length cs"
      and eq: "map (\<lambda>c. r ! col_pos c cs) tcs = map (\<lambda>c. r' ! col_pos c cs) tcs"
  shows "r = r'"
proof (rule nth_equalityI)
  show "length r = length r'" using assms by simp
next
  fix j assume "j < length r"
  then have j: "j < length cs" using assms by simp
  then have "cs ! j \<in> set tcs" using assms(2) by auto
  with eq have "r ! col_pos (cs ! j) cs = r' ! col_pos (cs ! j) cs" by auto
  then show "r ! j = r' ! j" using col_pos_nth [OF assms(1) j] by simp
qed

lemma distinct_loc_rows_cols:
  assumes "loc_rows_cols df i tcs = Inr df'" and "wf_frame df" and "distinct (rows df)"
      and "set (columns df) \<subseteq> set tcs"
  shows "distinct (rows df')"
proof -
  let ?sel = "\<lambda>r. map (\<lambda>c. r ! col_pos c (columns df)) tcs"
  let ?rs = "mask_rows (rows df) i"
  from assms(1) have r: "rows df' = map ?sel ?rs"
    by (auto simp: loc_rows_cols_def split: if_splits)
  have d: "distinct ?rs" using assms(3) by (rule distinct_mask_rows)
  have "inj_on ?sel (set ?rs)"
  proof (rule inj_onI)
    fix x y assume x: "x \<in> set ?rs" and y: "y \<in> set ?rs" and e: "?sel x = ?sel y"
    from x y set_mask_rows [of "rows df" i] assms(2)
    have "length x = length (columns df)" "length y = length (columns df)"
      by (auto simp: wf_frame_def)
    with assms(2,4) e show "x = y"
      by (intro select_inj [of "columns df" tcs x y]) (auto simp: wf_frame_def)
  qed
  with d r show ?thesis by (simp add: distinct_map)
qed

lemma produce_table_distinct_rows:
  assumes "produce_table m src = (w, Inr (Some df))" and "wf_frame src"
  shows "distinct (rows df)"
proof -
  from assms(1) obtain df1 df2 df3 i where
    1: "filter_loop m (filter_rows m) src = (w, Inr df1)" and
    2: "set_techgroup m df1 = Inr df2" and
    3: "col_map_loop (col_map m) df2 = Inr df3" and
    5: "loc_rows_cols
          (drop_duplicates (drop_columns df3
             (filter (\<lambda>x. x \<notin> set (times_cols m)) (columns df3)))) i (times_cols m) = Inr df"
    unfolding produce_table_def mapped_table_def Let_def
    by (auto split: prod.splits sum.splits option.splits if_splits)
  let ?df4 = "drop_duplicates (drop_columns df3
             (filter (\<lambda>x. x \<notin> set (times_cols m)) (columns df3)))"
  have "wf_frame df3" using 1 2 3 assms(2) wf_filter_loop wf_set_techgroup wf_col_map_loop
    by blast
  then have wf4: "wf_frame ?df4" by (simp add: wf_drop_columns wf_drop_duplicates)
  have sub: "set (columns ?df4) \<subseteq> set (times_cols m)"
    by (auto simp: drop_duplicates_def drop_columns_def)
  show ?thesis
    by (rule distinct_loc_rows_cols [OF 5 wf4 distinct_drop_duplicates sub])
qed

lemma wf_ex_techs: "wf_frame ex_techs"
  by (simp add: wf_frame_def ex_techs_def)

section \<open>Reading and writing a column\<close>

lemma col_pos_less: "c \<in> set cs \<Longrightarrow> col_pos c cs < length cs"
  by (induction cs) auto

lemma col_pos_append_new: "c \<notin> set cs \<Longrightarrow> col_pos c (cs @ [c]) = length cs"
  by (induction cs) auto

lemma col_pos_append_old: "c \<in> set cs \<Longrightarrow> col_pos c (cs @ ds) = col_pos c cs"
  by (induction cs) auto

lemma col_pos_inj: "c \<in> set cs \<Longrightarrow> d \<in> set cs \<Longrightarrow> col_pos c cs = col_pos d cs \<Longrightarrow> c = d"
  by (induction cs) (auto split: if_splits)

lemma nth_updated_rows:
  "length rs = length vs \<Longrightarrow> \<forall>r \<in> set rs. p < length r \<Longrightarrow>
     map (\<lambda>r. r ! p) (map (\<lambda>(r, v). r[p := v]) (zip rs vs)) = vs"
  by (induction rs vs rule: list_induct2) auto

lemma nth_updated_rows_other:
  "length rs = length vs \<Longrightarrow> p \<noteq> q \<Longrightarrow>
     map (\<lambda>r. r ! q) (map (\<lambda>(r, v). r[p := v]) (zip rs vs)) = map (\<lambda>r. r ! q) rs"
  by (induction rs vs rule: list_induct2) auto

lemma nth_extended_rows:
  "length rs = length vs \<Longrightarrow> \<forall>r \<in> set rs. length r = n \<Longrightarrow>
     map (\<lambda>r. r ! n) (map (\<lambda>(r, v). r @ [v]) (zip rs vs)) = vs"
  by (induction rs vs rule: list_induct2) auto

lemma nth_extended_rows_other:
  "length rs = length vs \<Longrightarrow> \<forall>r \<in> set rs. q < length r \<Longrightarrow>
     map (\<lambda>r. r ! q) (map (\<lambda>(r, v). r @ [v]) (zip rs vs)) = map (\<lambda>r. r ! q) rs"
  by (induction rs vs rule: list_induct2) (auto simp: nth_append)

lemma getitem_setitem_same:
  assumes "wf_frame df" and "length vals = length (rows df)"
  shows "getitem (setitem df c vals) c = Inr vals"
proof (cases "c \<in> set (columns df)")
  case True
  then have "\<forall>r \<in> set (rows df). col_pos c (columns df) < length r"
    using assms(1) col_pos_less [of c "columns df"] by (simp add: wf_frame_def)
  with True assms(2) show ?thesis
    by (simp add: getitem_def setitem_def nth_updated_rows del: map_map)
next
  case False
  with assms show ?thesis
    by (simp add: getitem_def setitem_def col_pos_append_new nth_extended_rows wf_frame_def
          del: map_map)
qed

lemma getitem_setitem_other:
  assumes "wf_frame df" and "length vals = length (rows df)"
      and "d \<in> set (columns df)" and "d \<noteq> c"
  shows "getitem (setitem df c vals) d = getitem df d"
proof (cases "c \<in> set (columns df)")
  case True
  then have "col_pos c (columns df) \<noteq> col_pos d (columns df)"
    using assms(3,4) col_pos_inj by blast
  with True assms(2,3) show ?thesis
    by (simp add: getitem_def setitem_def nth_updated_rows_other del: map_map)
next
  case False
  have "\<forall>r \<in> set (rows df). col_pos d (columns df) < length r"
    using assms(1,3) col_pos_less [of d "columns df"] by (simp add: wf_frame_def)
  with False assms(2,3) show ?thesis
    by (simp add: getitem_def setitem_def col_pos_append_old nth_extended_rows_other
          del: map_map)
qed

section \<open>The totals of compare\<close>

lemma fold_total_gt_rows:
  "total_gt_rows (fold (compare_table data) xs t)
     = total_gt_rows t + sum_list (map (\<lambda>x. nrows (snd x)) xs)"
  by (induction xs arbitrary: t)
     (auto simp: compare_table_def Let_def split: prod.splits option.splits)

lemma mset_sorted_by_len_desc: "mset (sorted_by_len_desc gt) = mset gt"
  by (simp add: sorted_by_len_desc_def)

lemma sum_list_sorted_by_len_desc:
  fixes f :: "string \<times> frame \<Rightarrow> nat"
  shows "sum_list (map f (sorted_by_len_desc gt)) = sum_list (map f gt)"
proof -
  have "sum_list (map f xs) = sum_mset (image_mset f (mset xs))" for xs :: store
    by (metis mset_map sum_mset_sum_list)
  then show ?thesis by (simp add: mset_sorted_by_len_desc)
qed

lemma total_gt_rows_compare:
  "total_gt_rows (fold (compare_table data) (sorted_by_len_desc gt) t)
     = total_gt_rows t + total_rows gt"
  by (simp add: fold_total_gt_rows sum_list_sorted_by_len_desc total_rows_def case_prod_unfold)

lemma total_rows_sorted: "total_rows (sorted_by_len_desc s) = total_rows s"
  by (simp add: total_rows_def sum_list_sorted_by_len_desc)

lemma split_dot_first_dotless: "dotless c \<Longrightarrow> split_dot_first c = c"
  by (auto simp: split_dot_first_def dotless_def)

lemma compare_table_self:
  assumes "map_of data n = Some df" and "distinct (rows df)"
      and "\<forall>c \<in> set (columns df). dotless c"
  shows "compare_table data (n, df) t
           = t\<lparr>total_gt_rows := total_gt_rows t + nrows df,
                total_correct_rows := total_correct_rows t + nrows df\<rparr>"
proof -
  have "map split_dot_first (columns df) = columns df"
    using assms(3) by (simp add: map_idI split_dot_first_dotless)
  moreover have "card (set (rows df)) = nrows df"
    using assms(2) by (simp add: nrows_def distinct_card)
  ultimately show ?thesis using assms(1)
    by (simp add: compare_table_def Let_def)
qed

lemma fold_compare_self:
  assumes "distinct (map fst data)"
      and "\<forall>(n, df) \<in> set data. distinct (rows df) \<and> (\<forall>c \<in> set (columns df). dotless c)"
      and "set xs \<subseteq> set data"
  shows "fold (compare_table data) xs t
           = t\<lparr>total_gt_rows := total_gt_rows t + total_rows xs,
                total_correct_rows := total_correct_rows t + total_rows xs\<rparr>"
  using assms(3)
proof (induction xs arbitrary: t)
  case Nil
  then show ?case by (simp add: total_rows_def)
next
  case (Cons x xs)
  obtain n df where x: "x = (n, df)" by (cases x)
  with Cons.prems have mem: "(n, df) \<in> set data" by simp
  then have "map_of data n = Some df" using assms(1) by simp
  moreover from mem assms(2) have "distinct (rows df)" "\<forall>c \<in> set (columns df). dotless c"
    by auto
  ultimately have "compare_table data (n, df) t
           = t\<lparr>total_gt_rows := total_gt_rows t + nrows df,
                total_correct_rows := total_correct_rows t + nrows df\<rparr>"
    by (rule compare_table_self)
  then show ?case using Cons.IH [of "compare_table data x t"] Cons.prems x
    by (simp add: total_rows_def add.assoc)
qed

lemma compare_self:
  assumes "distinct (map fst data)"
      and "\<forall>(n, df) \<in> set data. distinct (rows df) \<and> (\<forall>c \<in> set (columns df). dotless c)"
      and "total_rows data \<noteq> 0"
  shows "compare data data
           = ([GroundTruthContains (length data) (total_rows data)], [],
              Inr \<lparr>ratio = 1, correct_rows = total_rows data, gt_rows = total_rows data,
                   additional_rows = 0\<rparr>)"
proof -
  have sub: "set (sorted_by_len_desc data) \<subseteq> set data"
    by (simp add: sorted_by_len_desc_def)
  have flt: "filter (\<lambda>k. k \<notin> fst ` set data) (map fst data) = []"
    by (simp add: filter_empty_conv)
  show ?thesis
    unfolding compare_def Let_def flt
    using assms(3)
    by (simp add: fold_compare_self [OF assms(1,2) sub] total_rows_sorted)
qed

section \<open>compare and the order of rows\<close>

lemma same_rows_permuted_nrows:
  "same_rows_permuted x y \<Longrightarrow> nrows (snd x) = nrows (snd y)"
  by (auto simp: same_rows_permuted_def nrows_def dest: mset_eq_length)

lemma same_rows_permuted_fst: "same_rows_permuted x y \<Longrightarrow> fst x = fst y"
  by (auto simp: same_rows_permuted_def)

lemma compare_table_permuted:
  assumes "same_rows_permuted x y"
  shows "compare_table data x = compare_table data y"
proof -
  obtain n t n' t' where xy: "x = (n, t)" "y = (n', t')" by (cases x, cases y)
  with assms have e: "n' = n" "columns t' = columns t" "nrows t' = nrows t"
    "set (rows t') = set (rows t)"
    by (auto simp: same_rows_permuted_def nrows_def dest: mset_eq_length mset_eq_setD)
  show ?thesis unfolding xy compare_table_def prod.case e ..
qed

lemma fold_compare_permuted:
  "list_all2 same_rows_permuted xs ys \<Longrightarrow>
     fold (compare_table data) xs t = fold (compare_table data) ys t"
  by (induction xs ys arbitrary: t rule: list_all2_induct)
     (simp_all add: compare_table_permuted)

lemma insort_key_rel:
  assumes "list_all2 R xs ys" and "R x y" and "\<And>a b. R a b \<Longrightarrow> f a = f b"
  shows "list_all2 R (insort_key f x xs) (insort_key f y ys)"
  using assms(1)
proof (induction xs ys rule: list_all2_induct)
  case Nil
  then show ?case using assms(2) by simp
next
  case (Cons a as b bs)
  have "f a = f b" "f x = f y" using Cons.hyps(1) assms(2,3) by auto
  then show ?case using Cons assms(2) by simp
qed

lemma sort_key_rel:
  assumes "list_all2 R xs ys" and "\<And>a b. R a b \<Longrightarrow> f a = f b"
  shows "list_all2 R (sort_key f xs) (sort_key f ys)"
  using assms(1)
proof (induction xs ys rule: list_all2_induct)
  case Nil
  then show ?case by simp
next
  case (Cons a as b bs)
  then show ?case using assms(2) by (simp add: insort_key_rel)
qed

lemma sorted_by_len_desc_permuted:
  assumes "list_all2 same_rows_permuted gt gt'"
  shows "list_all2 same_rows_permuted (sorted_by_len_desc gt) (sorted_by_len_desc gt')"
proof -
  have "list_all2 same_rows_permuted (rev gt) (rev gt')" using assms by simp
  then have "list_all2 same_rows_permuted
               (sort_key (\<lambda>t. nrows (snd t)) (rev gt)) (sort_key (\<lambda>t. nrows (snd t)) (rev gt'))"
    by (rule sort_key_rel) (rule same_rows_permuted_nrows)
  then show ?thesis by (simp add: sorted_by_len_desc_def)
qed

lemma permuted_keys:
  "list_all2 same_rows_permuted gt gt' \<Longrightarrow> map fst gt = map fst gt'"
  by (induction gt gt' rule: list_all2_induct) (auto dest: same_rows_permuted_fst)

lemma permuted_nrows:
  "list_all2 same_rows_permuted gt gt' \<Longrightarrow>
     map (\<lambda>(_, df). nrows df) gt = map (\<lambda>(_, df). nrows df) gt'"
  by (induction gt gt' rule: list_all2_induct)
     (auto dest: same_rows_permuted_nrows simp: case_prod_unfold)

lemma permuted_lookup_nrows:
  "list_all2 same_rows_permuted gt gt' \<Longrightarrow>
     map_option nrows (map_of gt x) = map_option nrows (map_of gt' x)"
  by (induction gt gt' rule: list_all2_induct)
     (auto dest: same_rows_permuted_nrows same_rows_permuted_fst)

section \<open>The first table write_dd_files fails on\<close>

lemma write_tables_find:
  "case find (parameter_without_value ss tables) ts of
     Some t \<Rightarrow> write_tables ss tables ts = Inl (ParameterKeyError t)
   | None \<Rightarrow> \<exists>text. write_tables ss tables ts = Inr text"
proof (induction ts)
  case Nil
  then show ?case by simp
next
  case (Cons t ts)
  show ?case
  proof (cases "parameter_without_value ss tables t")
    case True
    then show ?thesis
      by (auto simp: parameter_without_value_def convert_parameter_def split: option.splits)
  next
    case False
    then show ?thesis using Cons.IH
      by (auto simp: parameter_without_value_def convert_parameter_def
               split: option.splits sum.splits)
  qed
qed

lemma find_append: "find P (xs @ ys) = (case find P xs of Some x \<Rightarrow> Some x | None \<Rightarrow> find P ys)"
  by (induction xs) auto

lemma write_files_find:
  "case find (parameter_without_value ss tables) (concat (map snd fs)) of
     Some t \<Rightarrow> write_files ss tables fs = Inl (ParameterKeyError t)
   | None \<Rightarrow> \<exists>files. write_files ss tables fs = Inr files"
proof (induction fs)
  case Nil
  then show ?case by simp
next
  case (Cons f fs)
  obtain fname ts where f: "f = (fname, ts)" by (cases f)
  show ?case
    using write_tables_find [of ss tables ts] Cons.IH f
    by (auto simp: find_append split: option.splits)
qed

section \<open>Properties of produce_times_tables\<close>



text \<open>
  C2. The example of the specification: of the three rows of \<open>techs\<close>, the row of region
  US is removed by the filter on \<open>region\<close> and the row whose value is the string
  \<open>None\<close> by the row validity rule; the one row \<open>(EU, T1, 5)\<close> is produced, under the
  columns \<open>REGION\<close>, \<open>TECH\<close>, \<open>VALUE\<close>, without a warning.
\<close>

theorem example_techs_one_row:
  "produce_times_tables
     \<lparr>times_xl_maps =
        [\<lparr>times_name = n,
          times_cols = [''REGION'', ''TECH'', ''VALUE''],
          xl_name = ''techs'',
          xl_cols = [''region'', ''techname'', ''value''],
          col_map = [(''REGION'', ''region''), (''TECH'', ''techname''), (''VALUE'', ''value'')],
          filter_rows = [(''region'', ''EU'')]\<rparr>],
      dd_table_order = order\<rparr>
     [(''techs'',
       \<lparr>columns = [''region'', ''techname'', ''value''],
        rows = [[Some ''EU'', Some ''T1'', Some ''5''],
                [Some ''US'', Some ''T2'', Some ''3''],
                [Some ''EU'', Some ''T3'', Some ''None'']]\<rparr>)]
   = ([], Inr [(n, \<lparr>columns = [''REGION'', ''TECH'', ''VALUE''],
                    rows = [[Some ''EU'', Some ''T1'', Some ''5'']]\<rparr>)])"
  by (simp add: produce_times_tables_def
      produce_table_def mapped_table_def set_techgroup_def getitem_def setitem_def loc_rows_def mask_rows_def
      lower_isin_def str_lower_def lower_char_def drop_columns_def drop_duplicates_def
      valid_mask_def loc_rows_cols_def)

text \<open>
  C3. A mapping entry that filters on \<open>region\<close>, applied to a source table without that
  column: the warning is printed, and the read of the column that follows it raises
  \<open>KeyError\<close>, which ends the run.
\<close>

theorem missing_filter_column_raises:
  "produce_times_tables (ex_config ''TECHS'') [(''techs'', ex_no_region)]
     = ([NoFilterColumn ''TECHS'' ''techs'' ''region''], Inl (KeyError [''region'']))"
  by (simp add: produce_times_tables_def ex_config_def ex_map_def ex_no_region_def
      produce_table_def mapped_table_def getitem_def)

text \<open>
  C6, as the claim states it: two entries of the name \<open>TECHS\<close>. The rows of the second
  are all removed by its filter, and yet the returned store holds a table under its
  \<open>times_name\<close>, the one the first entry stored.
\<close>

theorem empty_entry_name_still_stored:
  "ex_empty_map ''TECHS'' \<in> set (times_xl_maps (ex_two_config ''TECHS''))
   \<and> map_of [(''techs'', ex_techs)] (xl_name (ex_empty_map ''TECHS'')) = Some ex_techs
   \<and> mapped_table (ex_empty_map ''TECHS'') ex_techs
       = ([], Inr (Some \<lparr>columns = [''REGION'', ''TECH'', ''VALUE''], rows = []\<rparr>))
   \<and> produce_times_tables (ex_two_config ''TECHS'') [(''techs'', ex_techs)]
       = ([], Inr [(''TECHS'', ex_result)])
   \<and> times_name (ex_empty_map ''TECHS'') \<in> fst ` set [(''TECHS'', ex_result)]"
  using ex_empty_mapped [of "''TECHS''"] ex_two_run [of "''TECHS''"]
  by (simp add: ex_two_config_def ex_empty_map_def ex_map_def)

text \<open>
  C6, amended: whenever \<open>produce_times_tables\<close> returns, no table of the returned store is
  empty; and an entry whose source table exists and whose rows are all removed by the
  filters, the removal of duplicates and the row validity rule stores nothing: when no
  other entry of the configuration has its \<open>times_name\<close>, the returned store holds no
  table under that name at all.
\<close>

theorem no_empty_table:
  assumes "produce_times_tables config input = (w, Inr result)"
  shows "(\<forall>(n, df) \<in> set result. rows df \<noteq> [])
       \<and> (\<forall>m \<in> set (times_xl_maps config). \<forall>src w' df.
            map_of input (xl_name m) = Some src \<longrightarrow>
            mapped_table m src = (w', Inr (Some df)) \<longrightarrow> rows df = [] \<longrightarrow>
            (\<forall>m' \<in> set (times_xl_maps config). times_name m' = times_name m \<longrightarrow> m' = m) \<longrightarrow>
            times_name m \<notin> fst ` set result)"
proof (rule conjI)
  show "\<forall>(n, df) \<in> set result. rows df \<noteq> []"
    by (rule produce_times_tables_invariant [OF assms]) (auto dest: produce_table_Some)
next
  show "\<forall>m \<in> set (times_xl_maps config). \<forall>src w' df.
            map_of input (xl_name m) = Some src \<longrightarrow>
            mapped_table m src = (w', Inr (Some df)) \<longrightarrow> rows df = [] \<longrightarrow>
            (\<forall>m' \<in> set (times_xl_maps config). times_name m' = times_name m \<longrightarrow> m' = m) \<longrightarrow>
            times_name m \<notin> fst ` set result"
  proof (intro ballI allI impI)
    fix m src w' df
    assume m: "m \<in> set (times_xl_maps config)"
      and src: "map_of input (xl_name m) = Some src"
      and mt: "mapped_table m src = (w', Inr (Some df))" and e: "rows df = []"
      and only: "\<forall>m' \<in> set (times_xl_maps config). times_name m' = times_name m \<longrightarrow> m' = m"
    have none: "produce_table m src = (w', Inr None)"
      using mt e by (rule produce_table_of_empty)
    show "times_name m \<notin> fst ` set result"
    proof
      assume "times_name m \<in> fst ` set result"
      then obtain d where "(times_name m, d) \<in> set result" by auto
      with stored_table_origin [OF assms] obtain m' src' w'' where
        m': "m' \<in> set (times_xl_maps config)" "times_name m' = times_name m"
        and s': "map_of input (xl_name m') = Some src'"
        and p': "produce_table m' src' = (w'', Inr (Some d))"
        by fastforce
      from m' only have "m' = m" by blast
      with s' src p' none show False by simp
    qed
  qed
qed

theorem no_empty_table_witness:
  "produce_times_tables (ex_two_config ''NONE'') [(''techs'', ex_techs)]
     = ([], Inr [(''TECHS'', ex_result)])
   \<and> ex_empty_map ''NONE'' \<in> set (times_xl_maps (ex_two_config ''NONE''))
   \<and> map_of [(''techs'', ex_techs)] (xl_name (ex_empty_map ''NONE'')) = Some ex_techs
   \<and> mapped_table (ex_empty_map ''NONE'') ex_techs
       = ([], Inr (Some \<lparr>columns = [''REGION'', ''TECH'', ''VALUE''], rows = []\<rparr>))
   \<and> rows ex_result \<noteq> []
   \<and> times_name (ex_empty_map ''NONE'') \<notin> fst ` set [(''TECHS'', ex_result)]"
proof -
  let ?m = "ex_empty_map ''NONE''"
  let ?e = "\<lparr>columns = [''REGION'', ''TECH'', ''VALUE''], rows = []\<rparr> :: frame"
  have h: "produce_times_tables (ex_two_config ''NONE'') [(''techs'', ex_techs)]
             = ([], Inr [(''TECHS'', ex_result)])"
    by (rule ex_two_run)
  have m: "?m \<in> set (times_xl_maps (ex_two_config ''NONE''))"
    by (simp add: ex_two_config_def)
  have s: "map_of [(''techs'', ex_techs)] (xl_name ?m) = Some ex_techs"
    by (simp add: ex_empty_map_def ex_map_def)
  have t: "mapped_table ?m ex_techs = ([], Inr (Some ?e))"
    by (rule ex_empty_mapped)
  have r: "rows ?e = []" by simp
  have only: "\<forall>m' \<in> set (times_xl_maps (ex_two_config ''NONE'')).
                times_name m' = times_name ?m \<longrightarrow> m' = ?m"
    by (simp add: ex_two_config_def ex_empty_map_def ex_map_def)
  from no_empty_table [OF h] have
    a: "\<forall>(n, df) \<in> set [(''TECHS'', ex_result)]. rows df \<noteq> []" and
    b: "\<forall>m \<in> set (times_xl_maps (ex_two_config ''NONE'')). \<forall>src w' df.
            map_of [(''techs'', ex_techs)] (xl_name m) = Some src \<longrightarrow>
            mapped_table m src = (w', Inr (Some df)) \<longrightarrow> rows df = [] \<longrightarrow>
            (\<forall>m' \<in> set (times_xl_maps (ex_two_config ''NONE'')).
               times_name m' = times_name m \<longrightarrow> m' = m) \<longrightarrow>
            times_name m \<notin> fst ` set [(''TECHS'', ex_result)]"
    by blast+
  from a have 1: "rows ex_result \<noteq> []" by simp
  from b m s t r only
  have 2: "times_name ?m \<notin> fst ` set [(''TECHS'', ex_result)]" by blast
  from h m s t 1 2 show ?thesis by blast
qed

text \<open>
  C9, as the claim states it: a source table that supplies a \<open>techgroup\<close> column, here
  with the value \<open>G1\<close>, and an entry that asks for it. The table produced holds the
  technology name \<open>T1\<close> in the column fed by \<open>techgroup\<close>, not \<open>G1\<close>.
\<close>

theorem supplied_techgroup_overwritten:
  "getitem ex_grouped ''techgroup'' = Inr [Some ''G1'']
   \<and> produce_times_tables \<lparr>times_xl_maps = [ex_group_map], dd_table_order = []\<rparr>
         [(''techs'', ex_grouped)]
       = ([], Inr [(''PRC_GRP'',
                    \<lparr>columns = [''PRC'', ''GRP''], rows = [[Some ''T1'', Some ''T1'']]\<rparr>)])"
  by (simp add: ex_group_map_def ex_grouped_def produce_times_tables_def
      produce_table_def mapped_table_def set_techgroup_def getitem_def setitem_def loc_rows_def mask_rows_def
      lower_isin_def str_lower_def lower_char_def drop_columns_def drop_duplicates_def
      valid_mask_def loc_rows_cols_def)

text \<open>
  C9, amended: when \<open>techgroup\<close> is among the \<open>xl_cols\<close> of the entry and the filtered
  table has a column \<open>techname\<close>, the column \<open>techgroup\<close> becomes a copy of \<open>techname\<close>,
  whether the table had a \<open>techgroup\<close> column or not, and the other columns stay as they
  are; without a column \<open>techname\<close> the step raises \<open>KeyError\<close>; when \<open>techgroup\<close> is
  not among the \<open>xl_cols\<close> the table is left as it is.
\<close>

theorem techgroup_copied_from_techname:
  assumes "wf_frame df"
  shows "(''techgroup'' \<in> set (xl_cols m) \<and> ''techname'' \<in> set (columns df) \<longrightarrow>
            (\<exists>df'. set_techgroup m df = Inr df'
               \<and> getitem df' ''techgroup'' = getitem df ''techname''
               \<and> (\<forall>c \<in> set (columns df). c \<noteq> ''techgroup'' \<longrightarrow> getitem df' c = getitem df c)))
       \<and> (''techgroup'' \<in> set (xl_cols m) \<and> ''techname'' \<notin> set (columns df) \<longrightarrow>
            set_techgroup m df = Inl (KeyError [''techname'']))
       \<and> (''techgroup'' \<notin> set (xl_cols m) \<longrightarrow> set_techgroup m df = Inr df)"
proof (intro conjI impI)
  assume a: "''techgroup'' \<in> set (xl_cols m) \<and> ''techname'' \<in> set (columns df)"
  define vals where "vals = map (\<lambda>r. r ! col_pos ''techname'' (columns df)) (rows df)"
  have g: "getitem df ''techname'' = Inr vals" using a by (simp add: getitem_def vals_def)
  have l: "length vals = length (rows df)" by (simp add: vals_def)
  have "set_techgroup m df = Inr (setitem df ''techgroup'' vals)"
    using a g by (simp add: set_techgroup_def)
  moreover have "getitem (setitem df ''techgroup'' vals) ''techgroup'' = getitem df ''techname''"
    using getitem_setitem_same [OF assms l] g by simp
  moreover have "\<forall>c \<in> set (columns df). c \<noteq> ''techgroup'' \<longrightarrow>
                   getitem (setitem df ''techgroup'' vals) c = getitem df c"
    using getitem_setitem_other [OF assms l] by blast
  ultimately show "\<exists>df'. set_techgroup m df = Inr df'
               \<and> getitem df' ''techgroup'' = getitem df ''techname''
               \<and> (\<forall>c \<in> set (columns df). c \<noteq> ''techgroup'' \<longrightarrow> getitem df' c = getitem df c)"
    by blast
next
  assume "''techgroup'' \<in> set (xl_cols m) \<and> ''techname'' \<notin> set (columns df)"
  then show "set_techgroup m df = Inl (KeyError [''techname''])"
    by (simp add: set_techgroup_def getitem_def)
next
  assume "''techgroup'' \<notin> set (xl_cols m)"
  then show "set_techgroup m df = Inr df" by (simp add: set_techgroup_def)
qed

theorem techgroup_copied_from_techname_witness:
  "wf_frame ex_grouped
   \<and> ''techgroup'' \<in> set (xl_cols ex_group_map) \<and> ''techname'' \<in> set (columns ex_grouped)
   \<and> (\<exists>df'. set_techgroup ex_group_map ex_grouped = Inr df'
          \<and> getitem df' ''techgroup'' = getitem ex_grouped ''techname'')
   \<and> wf_frame ex_no_techname \<and> ''techname'' \<notin> set (columns ex_no_techname)
   \<and> set_techgroup ex_group_map ex_no_techname = Inl (KeyError [''techname''])
   \<and> wf_frame ex_techs \<and> ''techgroup'' \<notin> set (xl_cols (ex_map ''TECHS''))
   \<and> set_techgroup (ex_map ''TECHS'') ex_techs = Inr ex_techs"
proof -
  have 1: "wf_frame ex_grouped" by (simp add: wf_frame_def ex_grouped_def)
  have 2: "wf_frame ex_no_techname" by (simp add: wf_frame_def ex_no_techname_def)
  have a: "''techgroup'' \<in> set (xl_cols ex_group_map) \<and> ''techname'' \<in> set (columns ex_grouped)"
    by (simp add: ex_group_map_def ex_grouped_def)
  have b: "''techgroup'' \<in> set (xl_cols ex_group_map)
             \<and> ''techname'' \<notin> set (columns ex_no_techname)"
    by (simp add: ex_group_map_def ex_no_techname_def)
  have c: "''techgroup'' \<notin> set (xl_cols (ex_map ''TECHS''))" by (simp add: ex_map_def)
  from techgroup_copied_from_techname [OF 1, of ex_group_map] a
  have "\<exists>df'. set_techgroup ex_group_map ex_grouped = Inr df'
          \<and> getitem df' ''techgroup'' = getitem ex_grouped ''techname''"
    by blast
  moreover from techgroup_copied_from_techname [OF 2, of ex_group_map] b
  have "set_techgroup ex_group_map ex_no_techname = Inl (KeyError [''techname''])" by blast
  moreover from techgroup_copied_from_techname [OF wf_ex_techs, of "ex_map ''TECHS''"] c
  have "set_techgroup (ex_map ''TECHS'') ex_techs = Inr ex_techs" by blast
  ultimately show ?thesis using 1 2 a b c wf_ex_techs by blast
qed

section \<open>Properties of write_dd_files\<close>

text \<open>
  C4, as the claim states it: the set row \<open>(A, B)\<close> with the description \<open>desc\<close> is not
  written as \<open>'A.B' 'desc'\<close>.
\<close>

theorem set_row_not_dot_joined:
  "convert_set ex_set
     \<noteq> [[apostrophe] @ ''A.B'' @ [apostrophe] @ '' '' @ [apostrophe] @ ''desc''
          @ [apostrophe, newline]]"
  by (simp add: convert_set_def ex_set_def fields_except_def)

text \<open>
  C4, amended: the fields of a set row are joined with \<open>'.'\<close>, so the row is written as
  \<open>'A'.'B' 'desc'\<close> and a newline; the parameter row of key \<open>X\<close> and value \<open>10\<close> as
  \<open>'X' 10\<close> and a newline; the parameter row without key columns as \<open>10\<close> and a newline.
\<close>

theorem dd_lines_of_examples:
  "convert_set ex_set
     = [[apostrophe] @ ''A'' @ [apostrophe] @ ''.'' @ [apostrophe] @ ''B'' @ [apostrophe]
        @ '' '' @ [apostrophe] @ ''desc'' @ [apostrophe, newline]]
   \<and> convert_parameter t ex_param = Inr [[apostrophe] @ ''X'' @ [apostrophe] @ '' 10'' @ [newline]]
   \<and> convert_parameter t ex_scalar = Inr [''10'' @ [newline]]"
  by (simp add: convert_set_def convert_parameter_def ex_set_def ex_param_def ex_scalar_def
      fields_except_def)

text \<open>
  C5, as the claim states it. A parameter table without a \<open>VALUE\<close> column that is not
  named in \<open>dd_table_order\<close> is passed over and nothing is raised; and the run has other
  fatal paths: an entry that asks for \<open>techgroup\<close> on a source table without a
  \<open>techname\<close> column ends \<open>produce_times_tables\<close> with \<open>KeyError\<close>.
\<close>

theorem other_fatal_path_and_unrouted_table:
  "''P'' \<notin> sets (ex_dd_config []) \<and> ''VALUE'' \<notin> set (columns ex_set)
   \<and> write_dd_files [(''P'', ex_set)] (ex_dd_config [])
       = Inr [(''ts.dd'', []), (''output.dd'', [])]
   \<and> produce_times_tables \<lparr>times_xl_maps = [ex_group_map], dd_table_order = []\<rparr>
         [(''techs'', ex_no_techname)]
       = ([], Inl (KeyError [''techname'']))"
  by (simp add: ex_dd_config_def sets_def ex_set_def write_dd_files_def tables_in_file_def
      ex_group_map_def ex_no_techname_def produce_times_tables_def produce_table_def
      mapped_table_def
      set_techgroup_def getitem_def)

text \<open>
  C5, amended: \<^verbatim>\<open>write_dd_files\<close> raises exactly when one of the tables it writes
  (\<open>ALL_TS\<close> and the names of \<open>dd_table_order\<close> that are in the store) is not a set and
  has no column \<open>VALUE\<close>, and the exception is the \<open>KeyError\<close> of \<^verbatim>\<open>convert_parameter\<close>
  for such a table. Nothing else makes \<^verbatim>\<open>write_dd_files\<close> fail.
\<close>

theorem write_dd_files_fails_iff:
  "(\<forall>e. write_dd_files tables config = Inl e \<longrightarrow>
       (\<exists>t \<in> set (routed config).
          parameter_without_value (sets config) tables t \<and> e = ParameterKeyError t))
   \<and> ((\<exists>t \<in> set (routed config). parameter_without_value (sets config) tables t) \<longrightarrow>
       (\<exists>e. write_dd_files tables config = Inl e))"
proof -
  let ?P = "parameter_without_value (sets config) tables"
  note w = write_files_find [of "sets config" tables "tables_in_file config"]
  show ?thesis
  proof (cases "find ?P (routed config)")
    case None
    then have "\<not> (\<exists>t \<in> set (routed config). ?P t)" by (simp add: find_None_iff)
    moreover from None w have "\<exists>files. write_dd_files tables config = Inr files"
      by (simp add: write_dd_files_def routed_def)
    ultimately show ?thesis by auto
  next
    case (Some t)
    then have "t \<in> set (routed config)" "?P t" by (auto simp: find_Some_iff)
    moreover from Some w have "write_dd_files tables config = Inl (ParameterKeyError t)"
      by (simp add: write_dd_files_def routed_def)
    ultimately show ?thesis by auto
  qed
qed

theorem write_dd_files_fails_iff_witness:
  "''P'' \<in> set (routed (ex_dd_config [''P'']))
   \<and> parameter_without_value (sets (ex_dd_config [''P''])) [(''P'', ex_set)] ''P''
   \<and> write_dd_files [(''P'', ex_set)] (ex_dd_config [''P'']) = Inl (ParameterKeyError ''P'')
   \<and> (\<exists>t \<in> set (routed (ex_dd_config [''P''])).
         parameter_without_value (sets (ex_dd_config [''P''])) [(''P'', ex_set)] t
         \<and> ParameterKeyError ''P'' = ParameterKeyError t)
   \<and> (\<exists>e. write_dd_files [(''P'', ex_set)] (ex_dd_config [''P'']) = Inl e)"
proof -
  have r: "''P'' \<in> set (routed (ex_dd_config [''P'']))"
    by (simp add: routed_def tables_in_file_def ex_dd_config_def)
  have p: "parameter_without_value (sets (ex_dd_config [''P''])) [(''P'', ex_set)] ''P''"
    by (simp add: parameter_without_value_def sets_def ex_dd_config_def ex_set_def)
  have w: "write_dd_files [(''P'', ex_set)] (ex_dd_config [''P'']) = Inl (ParameterKeyError ''P'')"
    by (simp add: write_dd_files_def tables_in_file_def ex_dd_config_def sets_def ex_set_def
        convert_parameter_def)
  from write_dd_files_fails_iff [of "[(''P'', ex_set)]" "ex_dd_config [''P'']"] r p w
  show ?thesis by blast
qed

section \<open>Properties of compare\<close>

text \<open>
  C7, as the claim states it. The store produced from no mapping entries is empty, and
  comparing it with itself ends in a division by zero. A produced table whose column label
  has a dot is reported with an incorrect header when compared with itself, and none of
  its rows counts as correct.
\<close>

theorem compare_with_itself_fails:
  "produce_times_tables (ex_dd_config []) [] = ([], Inr [])
   \<and> compare [] [] = ([GroundTruthContains 0 0], [], Inl ZeroDivisionError)
   \<and> produce_times_tables \<lparr>times_xl_maps = [ex_dotted_map], dd_table_order = []\<rparr>
         [(''techs'', ex_techs)]
       = ([], Inr [(''DOTTED'', \<lparr>columns = [''V.1''], rows = [[Some ''5''], [Some ''3'']]\<rparr>)])
   \<and> compare [(''DOTTED'', \<lparr>columns = [''V.1''], rows = [[Some ''5''], [Some ''3'']]\<rparr>)]
         [(''DOTTED'', \<lparr>columns = [''V.1''], rows = [[Some ''5''], [Some ''3'']]\<rparr>)]
       = ([GroundTruthContains 1 2, HeaderIncorrect ''DOTTED'' [''V.1''] [''V'']], [],
          Inr \<lparr>ratio = 0, correct_rows = 0, gt_rows = 2, additional_rows = 0\<rparr>)"
  by (simp add: ex_dd_config_def ex_dotted_map_def ex_techs_def compare_def compare_table_def
      sorted_by_len_desc_def total_rows_def nrows_def split_dot_first_def
      produce_times_tables_def
      produce_table_def mapped_table_def set_techgroup_def getitem_def setitem_def loc_rows_def mask_rows_def
      lower_isin_def str_lower_def lower_char_def drop_columns_def drop_duplicates_def
      valid_mask_def loc_rows_cols_def)

text \<open>
  C7, amended: for every store that \<open>produce_times_tables\<close> returns from source tables with
  distinct column labels, that holds at least one table and has no dot in a column label,
  \<open>compare\<close> of the store with itself prints no warning, writes no file of missing or
  additional rows, and reports every ground-truth row as correct: a ratio of 1 and no
  additional rows.
\<close>

theorem compare_with_itself:
  assumes "produce_times_tables config input = (w, Inr data)"
      and "\<forall>(n, src) \<in> set input. wf_frame src"
      and "\<forall>(n, df) \<in> set data. \<forall>c \<in> set (columns df). dotless c"
      and "data \<noteq> []"
  shows "compare data data
           = ([GroundTruthContains (length data) (total_rows data)], [],
              Inr \<lparr>ratio = 1, correct_rows = total_rows data, gt_rows = total_rows data,
                   additional_rows = 0\<rparr>)"
proof -
  have d: "distinct (map fst data)" using assms(1) by (rule produce_times_tables_distinct)
  have r: "\<forall>(n, df) \<in> set data. distinct (rows df) \<and> rows df \<noteq> []"
  proof (rule produce_times_tables_invariant [OF assms(1)])
    fix m src w df
    assume "map_of input (xl_name m) = Some src" "produce_table m src = (w, Inr (Some df))"
    moreover from this assms(2) have "wf_frame src" by (auto dest: map_of_SomeD)
    ultimately show "distinct (rows df) \<and> rows df \<noteq> []"
      using produce_table_distinct_rows produce_table_Some by blast
  qed
  from assms(4) obtain n df rest where "data = (n, df) # rest" by (cases data) auto
  with r have "total_rows data \<noteq> 0" by (auto simp: total_rows_def nrows_def)
  moreover from r assms(3)
  have "\<forall>(n, df) \<in> set data. distinct (rows df) \<and> (\<forall>c \<in> set (columns df). dotless c)"
    by auto
  ultimately show ?thesis using d by (intro compare_self)
qed

theorem compare_with_itself_witness:
  "produce_times_tables (ex_config ''TECHS'') [(''techs'', ex_techs)]
     = ([], Inr [(''TECHS'', ex_result)])
   \<and> wf_frame ex_techs
   \<and> dotless ''REGION'' \<and> dotless ''TECH'' \<and> dotless ''VALUE''
   \<and> [(''TECHS'', ex_result)] \<noteq> []
   \<and> compare [(''TECHS'', ex_result)] [(''TECHS'', ex_result)]
       = ([GroundTruthContains 1 1], [],
          Inr \<lparr>ratio = 1, correct_rows = 1, gt_rows = 1, additional_rows = 0\<rparr>)"
proof -
  have h: "produce_times_tables (ex_config ''TECHS'') [(''techs'', ex_techs)]
             = ([], Inr [(''TECHS'', ex_result)])"
    by (rule ex_run)
  have i: "\<forall>(n, src) \<in> set [(''techs'', ex_techs)]. wf_frame src"
    using wf_ex_techs by simp
  have d: "dotless ''REGION'' \<and> dotless ''TECH'' \<and> dotless ''VALUE''"
    by (simp add: dotless_def)
  then have c: "\<forall>(n, df) \<in> set [(''TECHS'', ex_result)]. \<forall>c \<in> set (columns df). dotless c"
    by (simp add: ex_result_def)
  have t: "total_rows [(''TECHS'', ex_result)] = 1"
    by (simp add: total_rows_def nrows_def ex_result_def)
  from compare_with_itself [OF h i c] t h d wf_ex_techs show ?thesis by simp
qed

text \<open>
  C8. Permuting the rows of ground-truth tables changes nothing of what \<open>compare\<close> prints,
  writes and reports: the counts of correct, missing and additional rows are the same.
\<close>

theorem compare_row_order_independent:
  assumes "list_all2 same_rows_permuted ground_truth ground_truth'"
  shows "compare data ground_truth' = compare data ground_truth"
proof -
  have k: "map fst ground_truth' = map fst ground_truth"
    using assms by (simp add: permuted_keys)
  then have ks: "fst ` set ground_truth' = fst ` set ground_truth"
    by (metis set_map)
  have l: "length ground_truth' = length ground_truth"
    using assms by (simp add: list_all2_lengthD)
  have n: "total_rows ground_truth' = total_rows ground_truth"
    using permuted_nrows [OF assms] by (simp add: total_rows_def)
  have m: "nrows (the (map_of ground_truth' x)) = nrows (the (map_of ground_truth x))"
    if "x \<in> set (map fst ground_truth)" for x
  proof -
    from that obtain t where t: "map_of ground_truth x = Some t"
      by (metis not_Some_eq map_of_eq_None_iff set_map)
    from that k obtain t' where t': "map_of ground_truth' x = Some t'"
      by (metis not_Some_eq map_of_eq_None_iff set_map)
    from permuted_lookup_nrows [OF assms, of x] t t' show ?thesis by simp
  qed
  have ms: "map (\<lambda>x. (x, nrows (the (map_of ground_truth' x)))) xs
              = map (\<lambda>x. (x, nrows (the (map_of ground_truth x)))) xs"
    if "set xs \<subseteq> set (map fst ground_truth)" for xs
    using that m by (intro map_cong) auto
  have f: "fold (compare_table data) (sorted_by_len_desc ground_truth') t
             = fold (compare_table data) (sorted_by_len_desc ground_truth) t" for t
    using sorted_by_len_desc_permuted [OF assms] fold_compare_permuted by metis
  have sub: "set (sort (remdups (filter (\<lambda>k. k \<notin> fst ` set data) (map fst ground_truth))))
               \<subseteq> set (map fst ground_truth)"
    by auto
  show ?thesis
    unfolding compare_def Let_def k ks l n f ms [OF sub] ..
qed

theorem compare_row_order_independent_witness:
  "list_all2 same_rows_permuted [(''techs'', ex_techs)] [(''techs'', ex_techs_reversed)]
   \<and> rows ex_techs_reversed \<noteq> rows ex_techs
   \<and> compare [(''techs'', loc_rows ex_techs [True, True, False])]
         [(''techs'', ex_techs_reversed)]
       = compare [(''techs'', loc_rows ex_techs [True, True, False])] [(''techs'', ex_techs)]
   \<and> compare [(''techs'', loc_rows ex_techs [True, True, False])] [(''techs'', ex_techs)]
       = ([GroundTruthContains 1 3, RowsDiffer ''techs'' 2 3 0 1],
          [(''techs_missing.csv'', {[Some ''EU'', Some ''T3'', Some ''None'']})],
          Inr \<lparr>ratio = 2 / 3, correct_rows = 2, gt_rows = 3, additional_rows = 0\<rparr>)"
proof -
  have p: "list_all2 same_rows_permuted [(''techs'', ex_techs)] [(''techs'', ex_techs_reversed)]"
    by (simp add: same_rows_permuted_def ex_techs_reversed_def)
  have r: "rows ex_techs_reversed \<noteq> rows ex_techs"
    by (simp add: ex_techs_reversed_def ex_techs_def)
  have v: "compare [(''techs'', loc_rows ex_techs [True, True, False])] [(''techs'', ex_techs)]
       = ([GroundTruthContains 1 3, RowsDiffer ''techs'' 2 3 0 1],
          [(''techs_missing.csv'', {[Some ''EU'', Some ''T3'', Some ''None'']})],
          Inr \<lparr>ratio = 2 / 3, correct_rows = 2, gt_rows = 3, additional_rows = 0\<rparr>)"
    by (simp add: compare_def compare_table_def sorted_by_len_desc_def total_rows_def nrows_def
        split_dot_first_def loc_rows_def mask_rows_def ex_techs_def Let_def)
  from compare_row_order_independent
         [OF p, of "[(''techs'', loc_rows ex_techs [True, True, False])]"] p r v
  show ?thesis by (simp only: simp_thms)
qed

text \<open>
  C10. \<open>compare\<close> ends in \<open>ZeroDivisionError\<close> exactly when the tables of the ground truth
  hold no row at all; with at least one ground-truth row it returns its summary.
\<close>

theorem compare_zero_division:
  "snd (snd (compare data ground_truth)) = Inl ZeroDivisionError
     \<longleftrightarrow> total_rows ground_truth = 0"
  unfolding compare_def Let_def
  by (simp add: total_gt_rows_compare)

theorem compare_zero_division_witness:
  "total_rows [(''techs'', ex_techs\<lparr>rows := []\<rparr>)] = 0
   \<and> snd (snd (compare [(''techs'', ex_techs)] [(''techs'', ex_techs\<lparr>rows := []\<rparr>)]))
       = Inl ZeroDivisionError
   \<and> total_rows [(''techs'', ex_techs)] \<noteq> 0
   \<and> snd (snd (compare [(''techs'', ex_techs)] [(''techs'', ex_techs)])) \<noteq> Inl ZeroDivisionError"
proof -
  have z: "total_rows [(''techs'', ex_techs\<lparr>rows := []\<rparr>)] = 0"
    by (simp add: total_rows_def nrows_def)
  have n: "total_rows [(''techs'', ex_techs)] \<noteq> 0"
    by (simp add: total_rows_def nrows_def ex_techs_def)
  from compare_zero_division [of "[(''techs'', ex_techs)]" "[(''techs'', ex_techs\<lparr>rows := []\<rparr>)]"]
    compare_zero_division [of "[(''techs'', ex_techs)]" "[(''techs'', ex_techs)]"] z n
  show ?thesis by simp
qed

end
